theory Spec2Isabelle
  imports Main "HOL-Library.Multiset"
begin

section \<open>Entities (models/)\<close>

text \<open>
  A \<^verbatim>\<open>datetime\<close> is a number of microseconds on the UTC time line. The five SQLModel
  classes are records with the fields of the classes; \<^verbatim>\<open>id\<close> is \<^verbatim>\<open>Optional[int]\<close>, \<open>None\<close>
  until the store has assigned the primary key. Fields of different classes share
  names, so they are written qualified, \<open>Friend.user_id\<close>, as in the queries.
\<close>

type_synonym datetime = int

definition seconds :: "int \<Rightarrow> datetime" where
  "seconds n = n * 1000000"

definition minutes :: "int \<Rightarrow> datetime" where
  "minutes n = seconds (n * 60)"

definition hours :: "int \<Rightarrow> datetime" where
  "hours n = minutes (n * 60)"

record User =
  id :: "int option"
  clerk_user_id :: string
  name :: string
  created_at :: datetime

record Friend =
  id :: "int option"
  user_id :: int
  friend_id :: int
  status :: string

record Post =
  id :: "int option"
  user_id :: int
  content :: string
  media_url :: "string option"
  media_type :: "string option"
  created_at :: datetime
  updated_at :: datetime

record Comment =
  id :: "int option"
  post_id :: int
  user_id :: int
  parent_comment_id :: "int option"
  content :: string
  created_at :: datetime

record Story =
  id :: "int option"
  user_id :: int
  media_url :: string
  media_type :: string
  created_at :: datetime
  expires_at :: datetime

text \<open>
  \<^verbatim>\<open>Story(user_id=..., media_url=..., media_type=...)\<close>, as the route builds it: the two
  timestamps come from two default factories, each reading the clock for itself,
  \<open>created_at\<close> first. \<open>now1\<close> and \<open>now2\<close> are the two readings.
\<close>

definition Story_new :: "int \<Rightarrow> string \<Rightarrow> string \<Rightarrow> datetime \<Rightarrow> datetime \<Rightarrow> Story" where
  "Story_new uid url typ now1 now2 =
     \<lparr>Story.id = None, Story.user_id = uid, Story.media_url = url, Story.media_type = typ,
      Story.created_at = now1, Story.expires_at = now2 + hours 24\<rparr>"

section \<open>The store behind a Session (core/database.py)\<close>

text \<open>
  The relational store is one list of rows per table, in the order in which the store
  returns them to a query without \<^verbatim>\<open>ORDER BY\<close>; a new row goes to the end.
\<close>

record session =
  users :: "User list"
  friends :: "Friend list"
  posts :: "Post list"
  comments :: "Comment list"
  stories :: "Story list"

definition empty_session :: session where
  "empty_session = \<lparr>users = [], friends = [], posts = [], comments = [], stories = []\<rparr>"

datatype error = IntegrityError | InvalidRequestError | AmbiguousForeignKeysError

text \<open>
  The key the store gives a row added with \<^verbatim>\<open>id = None\<close>: 1 in an empty table, otherwise
  one more than the largest key of the table (SQLite's rowid, the configured default
  store). A row added with a key of its own keeps it, unless the table has that key.
\<close>

definition next_key :: "int option list \<Rightarrow> int" where
  "next_key ks = (case List.map_filter (\<lambda>k. k) ks of [] \<Rightarrow> 1 | k # ks' \<Rightarrow> fold max ks' k + 1)"

definition assign_key :: "int option \<Rightarrow> int option list \<Rightarrow> error + int" where
  "assign_key k ks =
     (case k of
        None \<Rightarrow> Inr (next_key ks)
      | Some i \<Rightarrow> if Some i \<in> set ks then Inl IntegrityError else Inr i)"

text \<open>\<^verbatim>\<open>session.exec(statement).first()\<close>: the first row of the result, or \<^verbatim>\<open>None\<close>.\<close>

definition first :: "('a \<Rightarrow> bool) \<Rightarrow> 'a list \<Rightarrow> 'a option" where
  "first P rows = List.find P rows"

section \<open>services/user_service.py\<close>

text \<open>
  The user table has two constraints, the primary key and \<^verbatim>\<open>unique=True\<close> on
  \<open>clerk_user_id\<close>. A commit that would break one raises \<open>IntegrityError\<close> and writes
  nothing.
\<close>

definition get_user_by_id :: "session \<Rightarrow> int \<Rightarrow> User option" where
  "get_user_by_id s uid = first (\<lambda>u. User.id u = Some uid) (users s)"

definition create_user :: "session \<Rightarrow> User \<Rightarrow> error + (User \<times> session)" where
  "create_user s user =
     (case assign_key (User.id user) (map User.id (users s)) of
        Inl e \<Rightarrow> Inl e
      | Inr k \<Rightarrow>
          if User.clerk_user_id user \<in> set (map User.clerk_user_id (users s))
          then Inl IntegrityError
          else Inr (user\<lparr>User.id := Some k\<rparr>,
                    s\<lparr>users := users s @ [user\<lparr>User.id := Some k\<rparr>]\<rparr>))"

text \<open>
  \<^verbatim>\<open>updated_user.dict(exclude_unset=True)\<close>: the fields that were set on the payload, each
  with its value.
\<close>

record User_fields_set =
  set_id :: "int option option"
  set_clerk_user_id :: "string option"
  set_name :: "string option"
  set_created_at :: "datetime option"

definition setattrs :: "User \<Rightarrow> User_fields_set \<Rightarrow> User" where
  "setattrs u upd =
     \<lparr>User.id = (case set_id upd of None \<Rightarrow> User.id u | Some v \<Rightarrow> v),
      User.clerk_user_id = (case set_clerk_user_id upd of None \<Rightarrow> User.clerk_user_id u | Some v \<Rightarrow> v),
      User.name = (case set_name upd of None \<Rightarrow> User.name u | Some v \<Rightarrow> v),
      User.created_at = (case set_created_at upd of None \<Rightarrow> User.created_at u | Some v \<Rightarrow> v)\<rparr>"

definition update_user :: "session \<Rightarrow> int \<Rightarrow> User_fields_set \<Rightarrow> error + (User option \<times> session)" where
  "update_user s uid upd =
     (case get_user_by_id s uid of
        None \<Rightarrow> Inr (None, s)
      | Some existing_user \<Rightarrow>
          let new_user = setattrs existing_user upd;
              others = filter (\<lambda>u. User.id u \<noteq> Some uid) (users s)
          in if User.id new_user = None
                \<or> User.id new_user \<in> set (map User.id others)
                \<or> User.clerk_user_id new_user \<in> set (map User.clerk_user_id others)
             then Inl IntegrityError
             else Inr (Some new_user,
                       s\<lparr>users := map (\<lambda>u. if User.id u = Some uid then new_user else u) (users s)\<rparr>))"

definition delete_user :: "session \<Rightarrow> int \<Rightarrow> bool \<times> session" where
  "delete_user s uid =
     (case get_user_by_id s uid of
        None \<Rightarrow> (False, s)
      | Some existing_user \<Rightarrow>
          (True, s\<lparr>users := filter (\<lambda>u. User.id u \<noteq> User.id existing_user) (users s)\<rparr>))"

text \<open>
  \<^verbatim>\<open>select(User).join(Friend)\<close> names no ON clause, so the join condition has to come
  from a foreign key of the friend table to the user table: with one, the join is on
  it; with several, the choice is ambiguous; with none, there is nothing to join on
  and executing the statement raises \<^verbatim>\<open>InvalidRequestError\<close>. models/friend.py declares
  \<^verbatim>\<open>user_id: int\<close> and \<^verbatim>\<open>friend_id: int\<close> without \<^verbatim>\<open>foreign_key\<close>, so the friend table has
  none.
\<close>

definition Friend_foreign_keys :: "(Friend \<Rightarrow> int) list" where
  "Friend_foreign_keys = []"

definition join_Friend ::
  "(Friend \<Rightarrow> int) list \<Rightarrow> User list \<Rightarrow> Friend list \<Rightarrow> error + (User \<times> Friend) list" where
  "join_Friend fks us fs =
     (case fks of
        [] \<Rightarrow> Inl InvalidRequestError
      | [fk] \<Rightarrow> Inr [(u, f). u \<leftarrow> us, f \<leftarrow> fs, Some (fk f) = User.id u]
      | fk # fk' # fks' \<Rightarrow> Inl AmbiguousForeignKeysError)"

text \<open>
  \<^verbatim>\<open>select(User).distinct().join(Friend).where(...)\<close>: of the joined rows that pass the
  \<^verbatim>\<open>where\<close> clause the user is selected, duplicates dropped. The exception of the join
  leaves the function; the routes do not catch it.
\<close>

definition get_friends :: "session \<Rightarrow> int \<Rightarrow> error + User list" where
  "get_friends s uid =
     (case join_Friend Friend_foreign_keys (users s) (friends s) of
        Inl e \<Rightarrow> Inl e
      | Inr rows \<Rightarrow>
          Inr (remdups [u. (u, f) \<leftarrow> rows,
                 Friend.user_id f = uid \<and> Some (Friend.friend_id f) = User.id u
                 \<and> Friend.status f = ''accepted'']))"

definition get_pending_friend_requests :: "session \<Rightarrow> int \<Rightarrow> error + User list" where
  "get_pending_friend_requests s uid =
     (case join_Friend Friend_foreign_keys (users s) (friends s) of
        Inl e \<Rightarrow> Inl e
      | Inr rows \<Rightarrow>
          Inr (remdups [u. (u, f) \<leftarrow> rows,
                 Friend.friend_id f = uid \<and> Friend.status f = ''pending''
                 \<and> Some (Friend.user_id f) = User.id u]))"

text \<open>
  \<^verbatim>\<open>friend_request.status = "accepted"; session.add(friend_request); session.commit()\<close>
  writes the row back under its primary key.
\<close>

definition accept_friend_request :: "session \<Rightarrow> int \<Rightarrow> int \<Rightarrow> bool \<times> session" where
  "accept_friend_request s uid fid =
     (case first (\<lambda>f. Friend.user_id f = fid \<and> Friend.friend_id f = uid
                       \<and> Friend.status f = ''pending'') (friends s) of
        None \<Rightarrow> (False, s)
      | Some friend_request \<Rightarrow>
          (True, s\<lparr>friends :=
                     map (\<lambda>f. if Friend.id f = Friend.id friend_request
                               then friend_request\<lparr>Friend.status := ''accepted''\<rparr> else f)
                         (friends s)\<rparr>))"

text \<open>\<^verbatim>\<open>session.delete(row)\<close> deletes the row with the primary key of \<^verbatim>\<open>row\<close>.\<close>

definition reject_friend_request :: "session \<Rightarrow> int \<Rightarrow> int \<Rightarrow> bool \<times> session" where
  "reject_friend_request s uid fid =
     (case first (\<lambda>f. Friend.user_id f = fid \<and> Friend.friend_id f = uid
                       \<and> Friend.status f = ''pending'') (friends s) of
        None \<Rightarrow> (False, s)
      | Some friend_request \<Rightarrow>
          (True, s\<lparr>friends := filter (\<lambda>f. Friend.id f \<noteq> Friend.id friend_request) (friends s)\<rparr>))"

definition send_friend_request :: "session \<Rightarrow> int \<Rightarrow> int \<Rightarrow> bool \<times> session" where
  "send_friend_request s uid fid =
     (case first (\<lambda>f. Friend.user_id f = uid \<and> Friend.friend_id f = fid) (friends s) of
        Some existing_request \<Rightarrow> (False, s)
      | None \<Rightarrow>
          (True, s\<lparr>friends := friends s @
                     [\<lparr>Friend.id = Some (next_key (map Friend.id (friends s))),
                       Friend.user_id = uid, Friend.friend_id = fid,
                       Friend.status = ''pending''\<rparr>]\<rparr>))"

definition remove_friend :: "session \<Rightarrow> int \<Rightarrow> int \<Rightarrow> bool \<times> session" where
  "remove_friend s uid fid =
     (case first (\<lambda>f. ((Friend.user_id f = uid \<and> Friend.friend_id f = fid)
                        \<or> (Friend.user_id f = fid \<and> Friend.friend_id f = uid))
                       \<and> Friend.status f = ''accepted'') (friends s) of
        None \<Rightarrow> (False, s)
      | Some friendship \<Rightarrow>
          (True, s\<lparr>friends := filter (\<lambda>f. Friend.id f \<noteq> Friend.id friendship) (friends s)\<rparr>))"

section \<open>services/post_service.py\<close>

definition create_post :: "session \<Rightarrow> Post \<Rightarrow> error + (Post \<times> session)" where
  "create_post s post =
     (case assign_key (Post.id post) (map Post.id (posts s)) of
        Inl e \<Rightarrow> Inl e
      | Inr k \<Rightarrow> Inr (post\<lparr>Post.id := Some k\<rparr>, s\<lparr>posts := posts s @ [post\<lparr>Post.id := Some k\<rparr>]\<rparr>))"

text \<open>
  \<^verbatim>\<open>order_by(created_at.desc())\<close>: the rows sorted on the negated timestamp; rows with
  equal timestamps stay in the order of the table.
\<close>

definition get_posts_for_user :: "session \<Rightarrow> int \<Rightarrow> Post list" where
  "get_posts_for_user s uid =
     sort_key (\<lambda>p. - Post.created_at p) (filter (\<lambda>p. Post.user_id p = uid) (posts s))"

definition get_timeline_posts :: "session \<Rightarrow> int \<Rightarrow> int list \<Rightarrow> Post list" where
  "get_timeline_posts s uid friend_ids =
     (let allowed_user_ids = [uid] @ friend_ids
      in sort_key (\<lambda>p. - Post.created_at p)
           (filter (\<lambda>p. Post.user_id p \<in> set allowed_user_ids) (posts s)))"

definition add_comment :: "session \<Rightarrow> Comment \<Rightarrow> error + (Comment \<times> session)" where
  "add_comment s comment =
     (case assign_key (Comment.id comment) (map Comment.id (comments s)) of
        Inl e \<Rightarrow> Inl e
      | Inr k \<Rightarrow> Inr (comment\<lparr>Comment.id := Some k\<rparr>,
                       s\<lparr>comments := comments s @ [comment\<lparr>Comment.id := Some k\<rparr>]\<rparr>))"

definition get_comments_for_post :: "session \<Rightarrow> int \<Rightarrow> Comment list" where
  "get_comments_for_post s pid =
     sort_key Comment.created_at (filter (\<lambda>c. Comment.post_id c = pid) (comments s))"

definition add_reply :: "session \<Rightarrow> Comment \<Rightarrow> error + (Comment \<times> session)" where
  "add_reply s reply =
     (case assign_key (Comment.id reply) (map Comment.id (comments s)) of
        Inl e \<Rightarrow> Inl e
      | Inr k \<Rightarrow> Inr (reply\<lparr>Comment.id := Some k\<rparr>,
                       s\<lparr>comments := comments s @ [reply\<lparr>Comment.id := Some k\<rparr>]\<rparr>))"

definition get_replies_for_comment :: "session \<Rightarrow> int \<Rightarrow> Comment list" where
  "get_replies_for_comment s cid =
     sort_key Comment.created_at
       (filter (\<lambda>c. Comment.parent_comment_id c = Some cid) (comments s))"

text \<open>\<^verbatim>\<open>session.get(Post, post_id)\<close>: the row with that primary key, or \<^verbatim>\<open>None\<close>.\<close>

definition delete_post :: "session \<Rightarrow> int \<Rightarrow> bool \<times> session" where
  "delete_post s pid =
     (case first (\<lambda>p. Post.id p = Some pid) (posts s) of
        None \<Rightarrow> (False, s)
      | Some existing_post \<Rightarrow>
          (True, s\<lparr>posts := filter (\<lambda>p. Post.id p \<noteq> Post.id existing_post) (posts s)\<rparr>))"

definition delete_comment :: "session \<Rightarrow> int \<Rightarrow> bool \<times> session" where
  "delete_comment s cid =
     (case first (\<lambda>c. Comment.id c = Some cid) (comments s) of
        None \<Rightarrow> (False, s)
      | Some existing_comment \<Rightarrow>
          (True, s\<lparr>comments :=
                     filter (\<lambda>c. Comment.id c \<noteq> Comment.id existing_comment) (comments s)\<rparr>))"

section \<open>services/story_service.py\<close>

definition create_story :: "session \<Rightarrow> Story \<Rightarrow> error + (Story \<times> session)" where
  "create_story s story =
     (case assign_key (Story.id story) (map Story.id (stories s)) of
        Inl e \<Rightarrow> Inl e
      | Inr k \<Rightarrow> Inr (story\<lparr>Story.id := Some k\<rparr>,
                       s\<lparr>stories := stories s @ [story\<lparr>Story.id := Some k\<rparr>]\<rparr>))"

text \<open>\<open>now\<close> is the reading of \<^verbatim>\<open>datetime.utcnow()\<close> at the start of the call.\<close>

definition get_stories_for_user :: "session \<Rightarrow> datetime \<Rightarrow> int \<Rightarrow> Story list" where
  "get_stories_for_user s now uid =
     (let friend_ids = map Friend.friend_id
            (filter (\<lambda>f. Friend.user_id f = uid \<and> Friend.status f = ''accepted'') (friends s));
          allowed_user_ids = [uid] @ friend_ids
      in filter (\<lambda>st. Story.user_id st \<in> set allowed_user_ids \<and> Story.expires_at st > now)
           (stories s))"

section \<open>Sequences of service calls\<close>

text \<open>
  One constructor for each service function that writes to the store; the functions
  that only read leave it as it is. A call that raises leaves the store unchanged.
\<close>

datatype op =
    Create_user User
  | Update_user int User_fields_set
  | Delete_user int
  | Accept_friend_request int int
  | Reject_friend_request int int
  | Send_friend_request int int
  | Remove_friend int int
  | Create_post Post
  | Add_comment Comment
  | Add_reply Comment
  | Delete_post int
  | Delete_comment int
  | Create_story Story

definition committed :: "session \<Rightarrow> error + ('a \<times> session) \<Rightarrow> session" where
  "committed s r = (case r of Inl e \<Rightarrow> s | Inr (x, s') \<Rightarrow> s')"

fun step :: "session \<Rightarrow> op \<Rightarrow> session" where
  "step s (Create_user u) = committed s (create_user s u)"
| "step s (Update_user uid upd) = committed s (update_user s uid upd)"
| "step s (Delete_user uid) = snd (delete_user s uid)"
| "step s (Accept_friend_request uid fid) = snd (accept_friend_request s uid fid)"
| "step s (Reject_friend_request uid fid) = snd (reject_friend_request s uid fid)"
| "step s (Send_friend_request uid fid) = snd (send_friend_request s uid fid)"
| "step s (Remove_friend uid fid) = snd (remove_friend s uid fid)"
| "step s (Create_post p) = committed s (create_post s p)"
| "step s (Add_comment c) = committed s (add_comment s c)"
| "step s (Add_reply c) = committed s (add_reply s c)"
| "step s (Delete_post pid) = snd (delete_post s pid)"
| "step s (Delete_comment cid) = snd (delete_comment s cid)"
| "step s (Create_story st) = committed s (create_story s st)"

fun run :: "session \<Rightarrow> op list \<Rightarrow> session" where
  "run s [] = s"
| "run s (c # cs) = run (step s c) cs"

text \<open>Primary keys: every stored row has one, and no two rows of a table share it.\<close>

definition keys_ok :: "int option list \<Rightarrow> bool" where
  "keys_ok ks \<longleftrightarrow> distinct ks \<and> None \<notin> set ks"

definition primary_keys :: "session \<Rightarrow> bool" where
  "primary_keys s \<longleftrightarrow>
     keys_ok (map User.id (users s)) \<and> keys_ok (map Friend.id (friends s))
     \<and> keys_ok (map Post.id (posts s)) \<and> keys_ok (map Comment.id (comments s))
     \<and> keys_ok (map Story.id (stories s))"

section \<open>Example stores\<close>

definition alice :: User where
  "alice = \<lparr>User.id = Some 1, User.clerk_user_id = ''clerk_1'', User.name = ''alice'',
             User.created_at = 0\<rparr>"

definition bob :: User where
  "bob = \<lparr>User.id = Some 2, User.clerk_user_id = ''clerk_2'', User.name = ''bob'',
           User.created_at = 0\<rparr>"

definition two_users :: session where
  "two_users = empty_session\<lparr>users := [alice, bob]\<rparr>"

definition requested :: session where
  "requested = run two_users [Send_friend_request 1 2]"

definition one_way :: session where
  "one_way = run two_users [Send_friend_request 1 2, Accept_friend_request 2 1]"

definition mixed :: session where
  "mixed = run two_users [Send_friend_request 1 2, Accept_friend_request 2 1,
                          Send_friend_request 2 1]"

definition mutual :: session where
  "mutual = run two_users [Send_friend_request 1 2, Send_friend_request 2 1,
                           Accept_friend_request 2 1, Accept_friend_request 1 2]"

definition signed_up :: "op list" where
  "signed_up = [Create_user (alice\<lparr>User.id := None\<rparr>), Create_user (bob\<lparr>User.id := None\<rparr>),
                Send_friend_request 1 2, Send_friend_request 2 1, Accept_friend_request 2 1]"

definition post_by :: "int \<Rightarrow> datetime \<Rightarrow> Post" where
  "post_by uid t = \<lparr>Post.id = None, Post.user_id = uid, Post.content = ''hello'',
                     Post.media_url = None, Post.media_type = None, Post.created_at = t,
                     Post.updated_at = t\<rparr>"

definition comment_on :: "int \<Rightarrow> int \<Rightarrow> int option \<Rightarrow> datetime \<Rightarrow> Comment" where
  "comment_on pid uid parent t = \<lparr>Comment.id = None, Comment.post_id = pid, Comment.user_id = uid,
                     Comment.parent_comment_id = parent, Comment.content = ''nice'',
                     Comment.created_at = t\<rparr>"

definition blog :: session where
  "blog = run two_users [Create_post (post_by 1 10), Create_post (post_by 2 30),
                         Create_post (post_by 3 20)]"

definition thread :: session where
  "thread = run two_users [Create_post (post_by 1 10), Create_post (post_by 2 10),
                           Add_comment (comment_on 1 2 None 11),
                           Add_comment (comment_on 2 1 None 12),
                           Add_reply (comment_on 1 1 (Some 1) 13)]"

section \<open>Queries and keys\<close>

lemma first_None: "first P rows = None \<longleftrightarrow> (\<forall>x \<in> set rows. \<not> P x)"
  by (auto simp: first_def find_None_iff)

lemma first_Some_holds: "first P rows = Some x \<Longrightarrow> P x \<and> x \<in> set rows"
  by (auto simp: first_def find_Some_iff)

lemma first_append:
  "first P (xs @ ys) = (case first P xs of None \<Rightarrow> first P ys | Some x \<Rightarrow> Some x)"
  by (induction xs) (auto simp: first_def)

lemma fold_max_ge: "(x::int) \<in> set (k # ks) \<Longrightarrow> x \<le> fold max ks k"
proof -
  assume "x \<in> set (k # ks)"
  then have "x \<le> Max (set (k # ks))" by (intro Max_ge) auto
  then show ?thesis by (simp only: Max.set_eq_fold)
qed

text \<open>The key the store assigns is not a key of the table.\<close>

lemma next_key_fresh: "Some (next_key ks) \<notin> set ks"
proof
  assume "Some (next_key ks) \<in> set ks"
  then have m: "next_key ks \<in> set (List.map_filter (\<lambda>k. k) ks)"
    by (force simp: List.map_filter_def)
  then obtain k ks' where e: "List.map_filter (\<lambda>k. k) ks = k # ks'"
    by (cases "List.map_filter (\<lambda>k. k) ks") auto
  with m have "next_key ks \<le> fold max ks' k" by (simp only: fold_max_ge)
  moreover from e have "next_key ks = fold max ks' k + 1" by (simp add: next_key_def)
  ultimately show False by simp
qed

text \<open>
  In a table with unique keys, deleting by the key of a row takes that row out and no
  other, and writing a row back under its key changes one position.
\<close>

lemma keyed_delete:
  "distinct (map key xs) \<Longrightarrow> r \<in> set xs \<Longrightarrow> filter (\<lambda>f. key f \<noteq> key r) xs = remove1 r xs"
proof (induction xs)
  case Nil
  then show ?case by simp
next
  case (Cons x xs)
  show ?case
  proof (cases "x = r")
    case True
    with Cons.prems have "key r \<notin> key ` set xs" by simp
    then have "\<forall>f \<in> set xs. key f \<noteq> key r" by (metis imageI)
    then have "filter (\<lambda>f. key f \<noteq> key r) xs = xs" by (simp add: filter_id_conv)
    with True show ?thesis by simp
  next
    case False
    with Cons.prems have "r \<in> set xs" and "key x \<noteq> key r" and "distinct (map key xs)"
      by auto
    with Cons.IH False show ?thesis by simp
  qed
qed

lemma keyed_update:
  assumes "distinct (map key xs)" and "r \<in> set xs"
  shows "\<exists>i < length xs. xs ! i = r \<and> map (\<lambda>f. if key f = key r then g else f) xs = xs[i := g]"
proof -
  from assms(2) obtain i where i: "i < length xs" "xs ! i = r"
    by (auto simp: in_set_conv_nth)
  have "map (\<lambda>f. if key f = key r then g else f) xs = xs[i := g]"
  proof (rule nth_equalityI)
    show "length (map (\<lambda>f. if key f = key r then g else f) xs) = length (xs[i := g])" by simp
  next
    fix j assume "j < length (map (\<lambda>f. if key f = key r then g else f) xs)"
    then have j: "j < length xs" by simp
    have "key (xs ! j) = key r \<longleftrightarrow> j = i"
      using assms(1) i j nth_eq_iff_index_eq [of "map key xs" j i] by auto
    with j i show "map (\<lambda>f. if key f = key r then g else f) xs ! j = xs[i := g] ! j"
      by (auto simp: nth_list_update)
  qed
  with i show ?thesis by blast
qed

section \<open>Primary keys in the stores the services build\<close>

text \<open>
  \<open>id\<close> is the primary key of every table (\<^verbatim>\<open>Field(primary_key=True)\<close>). Every service
  call keeps the keys of each table distinct and set, so they are in every store that
  calls of the services build from the empty one.
\<close>

lemma keys_ok_Cons: "keys_ok (k # ks) \<longleftrightarrow> k \<noteq> None \<and> k \<notin> set ks \<and> keys_ok ks"
  by (cases k) (auto simp: keys_ok_def)

lemma keys_ok_assign:
  "keys_ok ks \<Longrightarrow> assign_key k ks = Inr i \<Longrightarrow> keys_ok (ks @ [Some i])"
  using next_key_fresh [of ks]
  by (auto simp: keys_ok_def assign_key_def split: option.splits if_splits)

lemma keys_ok_filter: "keys_ok (map key xs) \<Longrightarrow> keys_ok (map key (filter P xs))"
  by (auto simp: keys_ok_def distinct_map_filter)

lemma keys_ok_replace:
  assumes "keys_ok (map key xs)" and "key g \<noteq> None"
    and "key g \<notin> set (map key (filter (\<lambda>u. key u \<noteq> k) xs))"
  shows "keys_ok (map key (map (\<lambda>u. if key u = k then g else u) xs))"
  using assms
proof (induction xs)
  case Nil
  then show ?case by simp
next
  case (Cons x xs)
  from Cons.prems have ok: "keys_ok (map key xs)" and x: "key x \<notin> key ` set xs" "key x \<noteq> None"
    by (auto simp: keys_ok_def)
  show ?case
  proof (cases "key x = k")
    case True
    with x have "\<forall>u \<in> set xs. key u \<noteq> k" by (metis imageI)
    then have same: "map (\<lambda>u. if key u = k then g else u) xs = xs"
      and all: "filter (\<lambda>u. key u \<noteq> k) xs = xs"
      by (simp_all add: map_idI filter_id_conv)
    from Cons.prems(3) True all have "key g \<notin> key ` set xs" by simp
    with ok Cons.prems(2) True same show ?thesis by (auto simp: keys_ok_def)
  next
    case False
    with Cons.prems(3) have g: "key g \<noteq> key x"
      and rest: "key g \<notin> set (map key (filter (\<lambda>u. key u \<noteq> k) xs))"
      by auto
    from Cons.IH [OF ok Cons.prems(2) rest]
    have IH: "keys_ok (map key (map (\<lambda>u. if key u = k then g else u) xs))" .
    have "key x \<notin> set (map key (map (\<lambda>u. if key u = k then g else u) xs))"
    proof
      assume "key x \<in> set (map key (map (\<lambda>u. if key u = k then g else u) xs))"
      then obtain u where "u \<in> set xs" "key x = key (if key u = k then g else u)"
        by auto
      with x(1) g show False by (cases "key u = k") auto
    qed
    moreover have "map key (map (\<lambda>u. if key u = k then g else u) (x # xs)) =
        key x # map key (map (\<lambda>u. if key u = k then g else u) xs)"
      using False by simp
    ultimately show ?thesis using IH x(2) by (simp only: keys_ok_Cons) simp
  qed
qed

lemma primary_keys_create_user:
  "primary_keys s \<Longrightarrow> primary_keys (committed s (create_user s u))"
  by (auto simp: primary_keys_def committed_def create_user_def
      split: sum.splits if_splits dest: keys_ok_assign)

lemma primary_keys_update_user:
  assumes "primary_keys s"
  shows "primary_keys (committed s (update_user s uid upd))"
proof (cases "update_user s uid upd")
  case (Inl e)
  with assms show ?thesis by (simp add: committed_def)
next
  case (Inr r)
  show ?thesis
  proof (cases "get_user_by_id s uid")
    case None
    with Inr assms show ?thesis by (auto simp: committed_def update_user_def)
  next
    case (Some ex)
    let ?new = "setattrs ex upd"
    from Inr Some have new: "User.id ?new \<noteq> None"
      "User.id ?new \<notin> set (map User.id (filter (\<lambda>u. User.id u \<noteq> Some uid) (users s)))"
      and r: "r = (Some ?new, s\<lparr>users := map (\<lambda>u. if User.id u = Some uid then ?new else u) (users s)\<rparr>)"
      by (auto simp: update_user_def Let_def split: if_splits)
    from assms have "keys_ok (map User.id (users s))" by (simp add: primary_keys_def)
    from keys_ok_replace [OF this new]
    have "keys_ok (map User.id (map (\<lambda>u. if User.id u = Some uid then ?new else u) (users s)))" .
    with assms Inr r show ?thesis by (simp add: committed_def primary_keys_def)
  qed
qed

lemma primary_keys_accept:
  "primary_keys s \<Longrightarrow> primary_keys (snd (accept_friend_request s a b))"
proof -
  have same: "map Friend.id (map (\<lambda>f. if Friend.id f = Friend.id r
          then r\<lparr>Friend.status := ''accepted''\<rparr> else f) xs) = map Friend.id xs" for r xs
    by (induction xs) auto
  show "primary_keys s \<Longrightarrow> ?thesis"
    by (cases "first (\<lambda>f. Friend.user_id f = b \<and> Friend.friend_id f = a
                       \<and> Friend.status f = ''pending'') (friends s)")
      (simp_all add: primary_keys_def accept_friend_request_def same del: map_map)
qed

lemma primary_keys_send:
  "primary_keys s \<Longrightarrow> primary_keys (snd (send_friend_request s a b))"
  using keys_ok_assign [of "map Friend.id (friends s)" None]
  by (auto simp: primary_keys_def send_friend_request_def assign_key_def split: option.splits)

lemma primary_keys_step: "primary_keys s \<Longrightarrow> primary_keys (step s c)"
proof (cases c)
  case (Create_user u)
  then show "primary_keys s \<Longrightarrow> ?thesis" by (simp add: primary_keys_create_user)
next
  case (Update_user uid upd)
  then show "primary_keys s \<Longrightarrow> ?thesis" by (simp add: primary_keys_update_user)
next
  case (Delete_user uid)
  then show "primary_keys s \<Longrightarrow> ?thesis"
    by (auto simp: primary_keys_def delete_user_def keys_ok_filter split: option.splits)
next
  case (Accept_friend_request a b)
  then show "primary_keys s \<Longrightarrow> ?thesis" by (simp add: primary_keys_accept)
next
  case (Reject_friend_request a b)
  then show "primary_keys s \<Longrightarrow> ?thesis"
    by (auto simp: primary_keys_def reject_friend_request_def keys_ok_filter split: option.splits)
next
  case (Send_friend_request a b)
  then show "primary_keys s \<Longrightarrow> ?thesis" by (simp add: primary_keys_send)
next
  case (Remove_friend a b)
  then show "primary_keys s \<Longrightarrow> ?thesis"
    by (auto simp: primary_keys_def remove_friend_def keys_ok_filter split: option.splits)
next
  case (Create_post p)
  then show "primary_keys s \<Longrightarrow> ?thesis"
    by (auto simp: primary_keys_def committed_def create_post_def
        split: sum.splits dest: keys_ok_assign)
next
  case (Add_comment cm)
  then show "primary_keys s \<Longrightarrow> ?thesis"
    by (auto simp: primary_keys_def committed_def add_comment_def
        split: sum.splits dest: keys_ok_assign)
next
  case (Add_reply cm)
  then show "primary_keys s \<Longrightarrow> ?thesis"
    by (auto simp: primary_keys_def committed_def add_reply_def
        split: sum.splits dest: keys_ok_assign)
next
  case (Delete_post pid)
  then show "primary_keys s \<Longrightarrow> ?thesis"
    by (auto simp: primary_keys_def delete_post_def keys_ok_filter split: option.splits)
next
  case (Delete_comment cid)
  then show "primary_keys s \<Longrightarrow> ?thesis"
    by (auto simp: primary_keys_def delete_comment_def keys_ok_filter split: option.splits)
next
  case (Create_story st)
  then show "primary_keys s \<Longrightarrow> ?thesis"
    by (auto simp: primary_keys_def committed_def create_story_def
        split: sum.splits dest: keys_ok_assign)
qed

lemma primary_keys_run: "primary_keys s \<Longrightarrow> primary_keys (run s cs)"
  by (induction cs arbitrary: s) (simp_all add: primary_keys_step)

lemma primary_keys_reachable: "primary_keys (run empty_session cs)"
  by (rule primary_keys_run) (simp add: primary_keys_def keys_ok_def empty_session_def)

lemma reachable_friend_keys: "distinct (map Friend.id (friends (run empty_session cs)))"
  using primary_keys_reachable [of cs] by (simp add: primary_keys_def keys_ok_def)

section \<open>The example stores, evaluated\<close>

text \<open>The store of the two users is what creating them in the empty store gives.\<close>

lemma two_users_built:
  "run empty_session [Create_user (alice\<lparr>User.id := None\<rparr>),
                      Create_user (bob\<lparr>User.id := None\<rparr>)] = two_users"
  by code_simp

lemma friends_requested:
  "friends requested = [\<lparr>Friend.id = Some 1, Friend.user_id = 1, Friend.friend_id = 2,
                       Friend.status = ''pending''\<rparr>]"
  by code_simp

lemma friends_one_way:
  "friends one_way = [\<lparr>Friend.id = Some 1, Friend.user_id = 1, Friend.friend_id = 2,
                       Friend.status = ''accepted''\<rparr>]"
  by code_simp

lemma users_one_way: "users one_way = [alice, bob]"
  by code_simp

lemma friends_mixed:
  "friends mixed = [\<lparr>Friend.id = Some 1, Friend.user_id = 1, Friend.friend_id = 2,
                       Friend.status = ''accepted''\<rparr>,
                     \<lparr>Friend.id = Some 2, Friend.user_id = 2, Friend.friend_id = 1,
                       Friend.status = ''pending''\<rparr>]"
  by code_simp

lemma friends_mutual:
  "friends mutual = [\<lparr>Friend.id = Some 1, Friend.user_id = 1, Friend.friend_id = 2,
                       Friend.status = ''accepted''\<rparr>,
                     \<lparr>Friend.id = Some 2, Friend.user_id = 2, Friend.friend_id = 1,
                       Friend.status = ''accepted''\<rparr>]"
  by code_simp

lemma friends_signed_up:
  "friends (run empty_session signed_up) =
     [\<lparr>Friend.id = Some 1, Friend.user_id = 1, Friend.friend_id = 2, Friend.status = ''accepted''\<rparr>,
      \<lparr>Friend.id = Some 2, Friend.user_id = 2, Friend.friend_id = 1, Friend.status = ''pending''\<rparr>]"
  by code_simp

lemma posts_blog:
  "posts blog = [(post_by 1 10)\<lparr>Post.id := Some 1\<rparr>, (post_by 2 30)\<lparr>Post.id := Some 2\<rparr>,
                 (post_by 3 20)\<lparr>Post.id := Some 3\<rparr>]"
  by code_simp

lemma posts_thread:
  "posts thread = [(post_by 1 10)\<lparr>Post.id := Some 1\<rparr>, (post_by 2 10)\<lparr>Post.id := Some 2\<rparr>]"
  by code_simp

lemma comments_thread:
  "comments thread = [(comment_on 1 2 None 11)\<lparr>Comment.id := Some 1\<rparr>,
                      (comment_on 2 1 None 12)\<lparr>Comment.id := Some 2\<rparr>,
                      (comment_on 1 1 (Some 1) 13)\<lparr>Comment.id := Some 3\<rparr>]"
  by code_simp

section \<open>Friend requests\<close>

lemma send_friend_request_True:
  "fst (send_friend_request s a b) \<Longrightarrow>
   (\<forall>f \<in> set (friends s). \<not> (Friend.user_id f = a \<and> Friend.friend_id f = b)) \<and>
   snd (send_friend_request s a b) =
     s\<lparr>friends := friends s @
         [\<lparr>Friend.id = Some (next_key (map Friend.id (friends s))), Friend.user_id = a,
           Friend.friend_id = b, Friend.status = ''pending''\<rparr>]\<rparr>"
  by (auto simp: send_friend_request_def first_None split: option.splits dest: first_Some_holds)

text \<open>
  After a request from \<open>a\<close> to \<open>b\<close> that went through, \<open>accept b a\<close> finds the new row,
  the only one from \<open>a\<close> to \<open>b\<close>, and no other row has its key.
\<close>

lemma accept_after_send:
  assumes "fst (send_friend_request s a b)"
  shows "accept_friend_request (snd (send_friend_request s a b)) b a =
     (True, s\<lparr>friends := friends s @
         [\<lparr>Friend.id = Some (next_key (map Friend.id (friends s))), Friend.user_id = a,
           Friend.friend_id = b, Friend.status = ''accepted''\<rparr>]\<rparr>)"
proof -
  let ?k = "Some (next_key (map Friend.id (friends s)))"
  let ?new = "\<lparr>Friend.id = ?k, Friend.user_id = a, Friend.friend_id = b,
                Friend.status = ''pending''\<rparr>"
  let ?P = "\<lambda>f. Friend.user_id f = a \<and> Friend.friend_id f = b \<and> Friend.status f = ''pending''"
  from send_friend_request_True [OF assms]
  have no: "\<forall>f \<in> set (friends s). \<not> (Friend.user_id f = a \<and> Friend.friend_id f = b)"
    and s1: "snd (send_friend_request s a b) = s\<lparr>friends := friends s @ [?new]\<rparr>"
    by auto
  from no have "first ?P (friends s) = None" by (auto simp: first_None)
  then have f: "first ?P (friends s @ [?new]) = Some ?new"
    by (simp add: first_append) (simp add: first_def)
  have fresh: "\<forall>f \<in> set (friends s). Friend.id f \<noteq> ?k"
    using next_key_fresh [of "map Friend.id (friends s)"] by (metis image_eqI set_map)
  then have "map (\<lambda>f. if Friend.id f = ?k then ?new\<lparr>Friend.status := ''accepted''\<rparr> else f)
               (friends s) = friends s"
    by (simp add: map_idI)
  with f show ?thesis
    by (simp add: s1 accept_friend_request_def)
qed

lemma accept_friend_request_cases:
  "(first (\<lambda>r. Friend.user_id r = f \<and> Friend.friend_id r = u \<and> Friend.status r = ''pending'')
       (friends s) = None \<and> accept_friend_request s u f = (False, s))
   \<or> (\<exists>r. first (\<lambda>r. Friend.user_id r = f \<and> Friend.friend_id r = u
                  \<and> Friend.status r = ''pending'') (friends s) = Some r
        \<and> accept_friend_request s u f =
            (True, s\<lparr>friends := map (\<lambda>x. if Friend.id x = Friend.id r
                                         then r\<lparr>Friend.status := ''accepted''\<rparr> else x)
                                   (friends s)\<rparr>))"
  by (cases "first (\<lambda>r. Friend.user_id r = f \<and> Friend.friend_id r = u
                  \<and> Friend.status r = ''pending'') (friends s)")
     (simp_all add: accept_friend_request_def)

lemma remove_friend_cases:
  "(first (\<lambda>r. ((Friend.user_id r = a \<and> Friend.friend_id r = b)
                 \<or> (Friend.user_id r = b \<and> Friend.friend_id r = a))
                \<and> Friend.status r = ''accepted'') (friends s) = None
      \<and> remove_friend s a b = (False, s))
   \<or> (\<exists>r. first (\<lambda>r. ((Friend.user_id r = a \<and> Friend.friend_id r = b)
                 \<or> (Friend.user_id r = b \<and> Friend.friend_id r = a))
                \<and> Friend.status r = ''accepted'') (friends s) = Some r
        \<and> remove_friend s a b =
            (True, s\<lparr>friends := filter (\<lambda>x. Friend.id x \<noteq> Friend.id r) (friends s)\<rparr>))"
  by (cases "first (\<lambda>r. ((Friend.user_id r = a \<and> Friend.friend_id r = b)
                 \<or> (Friend.user_id r = b \<and> Friend.friend_id r = a))
                \<and> Friend.status r = ''accepted'') (friends s)")
     (simp_all add: remove_friend_def)

text \<open>With unique keys, a successful call takes one accepted row between the two out.\<close>

lemma remove_friend_row:
  assumes "distinct (map Friend.id (friends s))"
  shows "(\<not> fst (remove_friend s a b) \<and> snd (remove_friend s a b) = s
          \<and> \<not> (\<exists>r \<in> set (friends s).
                 ((Friend.user_id r = a \<and> Friend.friend_id r = b)
                  \<or> (Friend.user_id r = b \<and> Friend.friend_id r = a))
                 \<and> Friend.status r = ''accepted''))
      \<or> (\<exists>r \<in> set (friends s).
            ((Friend.user_id r = a \<and> Friend.friend_id r = b)
             \<or> (Friend.user_id r = b \<and> Friend.friend_id r = a))
            \<and> Friend.status r = ''accepted''
            \<and> remove_friend s a b = (True, s\<lparr>friends := remove1 r (friends s)\<rparr>))"
proof -
  let ?P = "\<lambda>r. ((Friend.user_id r = a \<and> Friend.friend_id r = b)
                 \<or> (Friend.user_id r = b \<and> Friend.friend_id r = a))
                \<and> Friend.status r = ''accepted''"
  from remove_friend_cases [of a b s] show ?thesis
  proof (elim disjE conjE exE)
    assume "first ?P (friends s) = None" and "remove_friend s a b = (False, s)"
    then show ?thesis by (auto simp: first_None)
  next
    fix r
    assume r: "first ?P (friends s) = Some r"
      and rem: "remove_friend s a b =
            (True, s\<lparr>friends := filter (\<lambda>x. Friend.id x \<noteq> Friend.id r) (friends s)\<rparr>)"
    from r have rP: "?P r" and rin: "r \<in> set (friends s)"
      using first_Some_holds [of ?P "friends s" r] by auto
    from keyed_delete [OF assms rin] rem
    have "remove_friend s a b = (True, s\<lparr>friends := remove1 r (friends s)\<rparr>)" by simp
    with rP rin show ?thesis by blast
  qed
qed

text \<open>
  C1. \<open>get_friends\<close> does not return the users of the accepted rows with
  \<open>user_id = uid\<close>: it raises \<^verbatim>\<open>InvalidRequestError\<close> on every call. In \<open>one_way\<close>, where
  user 1 sent a request to user 2 and user 2 accepted, the two users are stored and the
  one friend row is accepted and runs from 1 to 2, and \<open>get_friends one_way 1\<close> raises
  where \<open>[bob]\<close> is expected.
\<close>

theorem get_friends_raises:
  "users one_way = [alice, bob]
   \<and> friends one_way = [\<lparr>Friend.id = Some 1, Friend.user_id = 1, Friend.friend_id = 2,
                         Friend.status = ''accepted''\<rparr>]
   \<and> get_friends one_way 1 = Inl InvalidRequestError
   \<and> (\<forall>s uid. get_friends s uid = Inl InvalidRequestError)"
  by (simp add: users_one_way friends_one_way get_friends_def join_Friend_def
      Friend_foreign_keys_def)

text \<open>
  C2. \<open>send_friend_request s a b\<close> returns \<open>False\<close> exactly when the table has a row from
  \<open>a\<close> to \<open>b\<close>, whatever its status, and then leaves the store as it is; otherwise it
  returns \<open>True\<close> and adds one row, \<open>(a, b, pending)\<close>, under a key the table did not
  have, and changes nothing else. For \<open>a \<noteq> b\<close>, a request from \<open>b\<close> to \<open>a\<close> that no row
  from \<open>b\<close> to \<open>a\<close> blocks goes through after the request from \<open>a\<close> to \<open>b\<close> as well; a
  second request from \<open>a\<close> to \<open>b\<close> right after the first fails.
\<close>

theorem send_friend_request_directed:
  "(fst (send_friend_request s a b) \<longleftrightarrow>
      \<not> (\<exists>f \<in> set (friends s). Friend.user_id f = a \<and> Friend.friend_id f = b))
   \<and> (\<not> fst (send_friend_request s a b) \<longrightarrow> snd (send_friend_request s a b) = s)
   \<and> (fst (send_friend_request s a b) \<longrightarrow>
        Some (next_key (map Friend.id (friends s))) \<notin> set (map Friend.id (friends s))
        \<and> snd (send_friend_request s a b) =
            s\<lparr>friends := friends s @
                [\<lparr>Friend.id = Some (next_key (map Friend.id (friends s))), Friend.user_id = a,
                  Friend.friend_id = b, Friend.status = ''pending''\<rparr>]\<rparr>)
   \<and> (a \<noteq> b \<and> \<not> (\<exists>f \<in> set (friends s). Friend.user_id f = b \<and> Friend.friend_id f = a) \<longrightarrow>
        fst (send_friend_request (snd (send_friend_request s a b)) b a))
   \<and> \<not> fst (send_friend_request (snd (send_friend_request s a b)) a b)"
proof -
  have iff: "fst (send_friend_request s a b) \<longleftrightarrow>
      \<not> (\<exists>f \<in> set (friends s). Friend.user_id f = a \<and> Friend.friend_id f = b)" for s a b
    by (auto simp: send_friend_request_def first_None split: option.splits
        dest: first_Some_holds)
  have unchanged: "\<not> fst (send_friend_request s a b) \<Longrightarrow> snd (send_friend_request s a b) = s"
    by (auto simp: send_friend_request_def split: option.splits)
  have new: "fst (send_friend_request s a b) \<Longrightarrow> snd (send_friend_request s a b) =
            s\<lparr>friends := friends s @
                [\<lparr>Friend.id = Some (next_key (map Friend.id (friends s))), Friend.user_id = a,
                  Friend.friend_id = b, Friend.status = ''pending''\<rparr>]\<rparr>"
    by (simp add: send_friend_request_True)
  have rows: "set (friends (snd (send_friend_request s a b))) \<subseteq> set (friends s) \<union>
     {\<lparr>Friend.id = Some (next_key (map Friend.id (friends s))), Friend.user_id = a,
                  Friend.friend_id = b, Friend.status = ''pending''\<rparr>}"
    using new unchanged by (cases "fst (send_friend_request s a b)") auto
  have reverse: "fst (send_friend_request (snd (send_friend_request s a b)) b a)"
    if "a \<noteq> b" and "\<not> (\<exists>f \<in> set (friends s). Friend.user_id f = b \<and> Friend.friend_id f = a)"
  proof -
    have "\<not> (Friend.user_id f = b \<and> Friend.friend_id f = a)"
      if "f \<in> set (friends (snd (send_friend_request s a b)))" for f
    proof -
      from that rows have "f \<in> set (friends s) \<or>
        f = \<lparr>Friend.id = Some (next_key (map Friend.id (friends s))), Friend.user_id = a,
                  Friend.friend_id = b, Friend.status = ''pending''\<rparr>" by blast
      then show ?thesis
      proof
        assume "f \<in> set (friends s)"
        with \<open>\<not> (\<exists>f \<in> set (friends s). Friend.user_id f = b \<and> Friend.friend_id f = a)\<close>
        show ?thesis by blast
      next
        assume "f = \<lparr>Friend.id = Some (next_key (map Friend.id (friends s))), Friend.user_id = a,
                  Friend.friend_id = b, Friend.status = ''pending''\<rparr>"
        with \<open>a \<noteq> b\<close> show ?thesis by simp
      qed
    qed
    then show ?thesis unfolding iff by blast
  qed
  have again: "\<not> fst (send_friend_request (snd (send_friend_request s a b)) a b)"
  proof (cases "fst (send_friend_request s a b)")
    case True
    from new [OF True] have "\<lparr>Friend.id = Some (next_key (map Friend.id (friends s))),
         Friend.user_id = a, Friend.friend_id = b, Friend.status = ''pending''\<rparr>
       \<in> set (friends (snd (send_friend_request s a b)))" by simp
    then show ?thesis unfolding iff by force
  next
    case False
    with unchanged show ?thesis by simp
  qed
  from iff unchanged new reverse again next_key_fresh show ?thesis by blast
qed

theorem send_friend_request_directed_witness:
  "fst (send_friend_request two_users 1 2)
   \<and> fst (send_friend_request (snd (send_friend_request two_users 1 2)) 2 1)
   \<and> \<not> fst (send_friend_request (snd (send_friend_request two_users 1 2)) 1 2)"
proof -
  have "friends two_users = []" by (simp add: two_users_def empty_session_def)
  then have "\<not> (\<exists>f \<in> set (friends two_users). Friend.user_id f = 1 \<and> Friend.friend_id f = 2)"
    and "(1::int) \<noteq> 2
      \<and> \<not> (\<exists>f \<in> set (friends two_users). Friend.user_id f = 2 \<and> Friend.friend_id f = 1)"
    by simp_all
  with send_friend_request_directed [of two_users 1 2] show ?thesis by blast
qed

text \<open>
  C3. \<open>accept_friend_request s u f\<close> returns \<open>True\<close> exactly when the table has a pending
  row from \<open>f\<close> to \<open>u\<close>. When it returns \<open>False\<close> the store is unchanged. When it returns
  \<open>True\<close>, in a table with unique keys, one such row has its status set to accepted, and
  nothing else changes.
\<close>

theorem accept_friend_request_pending_only:
  "(fst (accept_friend_request s u f) \<longleftrightarrow>
      (\<exists>r \<in> set (friends s). Friend.user_id r = f \<and> Friend.friend_id r = u
          \<and> Friend.status r = ''pending''))
   \<and> (\<not> fst (accept_friend_request s u f) \<longrightarrow> snd (accept_friend_request s u f) = s)
   \<and> (fst (accept_friend_request s u f) \<and> distinct (map Friend.id (friends s)) \<longrightarrow>
        (\<exists>i < length (friends s).
            Friend.user_id (friends s ! i) = f \<and> Friend.friend_id (friends s ! i) = u
            \<and> Friend.status (friends s ! i) = ''pending''
            \<and> snd (accept_friend_request s u f) =
                s\<lparr>friends := (friends s)[i := (friends s ! i)\<lparr>Friend.status := ''accepted''\<rparr>]\<rparr>))"
proof -
  let ?P = "\<lambda>r. Friend.user_id r = f \<and> Friend.friend_id r = u \<and> Friend.status r = ''pending''"
  from accept_friend_request_cases [of f u s] show ?thesis
  proof (elim disjE conjE exE)
    assume "first ?P (friends s) = None" and "accept_friend_request s u f = (False, s)"
    then show ?thesis by (auto simp: first_None)
  next
    fix r
    assume r: "first ?P (friends s) = Some r"
      and acc: "accept_friend_request s u f =
            (True, s\<lparr>friends := map (\<lambda>x. if Friend.id x = Friend.id r
                                         then r\<lparr>Friend.status := ''accepted''\<rparr> else x)
                                   (friends s)\<rparr>)"
    from r have rP: "?P r" and rin: "r \<in> set (friends s)"
      using first_Some_holds [of ?P "friends s" r] by auto
    have "\<exists>i < length (friends s).
            Friend.user_id (friends s ! i) = f \<and> Friend.friend_id (friends s ! i) = u
            \<and> Friend.status (friends s ! i) = ''pending''
            \<and> snd (accept_friend_request s u f) =
                s\<lparr>friends := (friends s)[i := (friends s ! i)\<lparr>Friend.status := ''accepted''\<rparr>]\<rparr>"
      if d: "distinct (map Friend.id (friends s))"
    proof -
      from keyed_update [OF d rin, of "r\<lparr>Friend.status := ''accepted''\<rparr>"]
      obtain i where "i < length (friends s)" "friends s ! i = r"
        "map (\<lambda>x. if Friend.id x = Friend.id r then r\<lparr>Friend.status := ''accepted''\<rparr> else x)
           (friends s) = (friends s)[i := r\<lparr>Friend.status := ''accepted''\<rparr>]"
        by blast
      with rP acc show ?thesis by auto
    qed
    with rP rin acc show ?thesis by auto
  qed
qed

theorem accept_friend_request_pending_only_witness:
  "distinct (map Friend.id (friends requested))
   \<and> fst (accept_friend_request requested 2 1)
   \<and> friends (snd (accept_friend_request requested 2 1)) =
       [\<lparr>Friend.id = Some 1, Friend.user_id = 1, Friend.friend_id = 2,
         Friend.status = ''accepted''\<rparr>]
   \<and> \<not> fst (accept_friend_request requested 1 2)
   \<and> snd (accept_friend_request requested 1 2) = requested"
proof -
  have d: "distinct (map Friend.id (friends requested))"
    by (simp add: friends_requested)
  have p: "\<exists>r \<in> set (friends requested). Friend.user_id r = 1 \<and> Friend.friend_id r = 2
          \<and> Friend.status r = ''pending''"
    by (simp add: friends_requested)
  have n: "\<not> (\<exists>r \<in> set (friends requested). Friend.user_id r = 2 \<and> Friend.friend_id r = 1
          \<and> Friend.status r = ''pending'')"
    by (simp add: friends_requested)
  from accept_friend_request_pending_only [of requested 2 1] p d
  have "fst (accept_friend_request requested 2 1)"
    and "\<exists>i < length (friends requested). snd (accept_friend_request requested 2 1) =
          requested\<lparr>friends := (friends requested)
             [i := (friends requested ! i)\<lparr>Friend.status := ''accepted''\<rparr>]\<rparr>"
    by blast+
  moreover from accept_friend_request_pending_only [of requested 1 2] n
  have "\<not> fst (accept_friend_request requested 1 2)"
    and "snd (accept_friend_request requested 1 2) = requested"
    by blast+
  ultimately show ?thesis using d by (auto simp: friends_requested)
qed

section \<open>Stories\<close>

lemma get_stories_for_user_filter:
  "get_stories_for_user s now uid =
     filter (\<lambda>st. (Story.user_id st = uid
                    \<or> (\<exists>f \<in> set (friends s). Friend.user_id f = uid
                          \<and> Friend.friend_id f = Story.user_id st
                          \<and> Friend.status f = ''accepted''))
                   \<and> now < Story.expires_at st) (stories s)"
  unfolding get_stories_for_user_def Let_def
  by (rule filter_cong) (auto simp: image_iff)

lemma create_story_new:
  "create_story s (Story_new owner url typ T T') =
     Inr (\<lparr>Story.id = Some (next_key (map Story.id (stories s))), Story.user_id = owner,
           Story.media_url = url, Story.media_type = typ, Story.created_at = T,
           Story.expires_at = T' + hours 24\<rparr>,
          s\<lparr>stories := stories s @
             [\<lparr>Story.id = Some (next_key (map Story.id (stories s))), Story.user_id = owner,
               Story.media_url = url, Story.media_type = typ, Story.created_at = T,
               Story.expires_at = T' + hours 24\<rparr>]\<rparr>)"
  by (simp add: create_story_def Story_new_def assign_key_def)

lemma step_stories: "st \<in> set (stories s) \<Longrightarrow> st \<in> set (stories (step s c))"
  by (cases c)
    (auto simp: committed_def create_user_def update_user_def create_post_def add_comment_def
      add_reply_def create_story_def Let_def delete_user_def delete_post_def delete_comment_def
      accept_friend_request_def reject_friend_request_def send_friend_request_def
      remove_friend_def
      split: sum.splits option.splits if_splits)

text \<open>
  C4. \<open>get_stories_for_user s now uid\<close> returns exactly the stories, in table order, whose
  owner is \<open>uid\<close> or the \<open>friend_id\<close> of an accepted row with \<open>user_id = uid\<close>, and whose
  \<open>expires_at\<close> is greater than \<open>now\<close>. No service call changes or removes a stored
  story. A story built by the constructor with clock readings \<open>T\<close> for \<open>created_at\<close> and
  \<open>T'\<close> for the expiry, \<open>T \<le> T' \<le> T + 1s\<close>, expires at \<open>T' + 24h\<close>; a viewer who is its
  owner or has an accepted row to the owner gets it at \<open>T + 1h\<close> and at \<open>T + 23h59m\<close>, and
  does not get it at \<open>T + 24h00m01s\<close>.
\<close>

theorem get_stories_for_user_visible:
  "get_stories_for_user s now uid =
     filter (\<lambda>st. (Story.user_id st = uid
                    \<or> (\<exists>f \<in> set (friends s). Friend.user_id f = uid
                          \<and> Friend.friend_id f = Story.user_id st
                          \<and> Friend.status f = ''accepted''))
                   \<and> now < Story.expires_at st) (stories s)
   \<and> (\<forall>st \<in> set (stories s). st \<in> set (stories (step s c)))
   \<and> (T \<le> T' \<and> T' \<le> T + seconds 1
       \<and> (owner = uid \<or> (\<exists>f \<in> set (friends s). Friend.user_id f = uid
                            \<and> Friend.friend_id f = owner \<and> Friend.status f = ''accepted''))
       \<longrightarrow> (case create_story s (Story_new owner url typ T T') of
              Inl e \<Rightarrow> False
            | Inr (st, s') \<Rightarrow>
                Story.created_at st = T \<and> Story.expires_at st = T' + hours 24
                \<and> st \<in> set (get_stories_for_user s' (T + hours 1) uid)
                \<and> st \<in> set (get_stories_for_user s' (T + hours 23 + minutes 59) uid)
                \<and> st \<notin> set (get_stories_for_user s' (T + hours 24 + seconds 1) uid)))"
proof (intro conjI impI)
  show "get_stories_for_user s now uid =
     filter (\<lambda>st. (Story.user_id st = uid
                    \<or> (\<exists>f \<in> set (friends s). Friend.user_id f = uid
                          \<and> Friend.friend_id f = Story.user_id st
                          \<and> Friend.status f = ''accepted''))
                   \<and> now < Story.expires_at st) (stories s)"
    by (rule get_stories_for_user_filter)
  show "\<forall>st \<in> set (stories s). st \<in> set (stories (step s c))"
    by (simp add: step_stories)
next
  assume h: "T \<le> T' \<and> T' \<le> T + seconds 1
       \<and> (owner = uid \<or> (\<exists>f \<in> set (friends s). Friend.user_id f = uid
                            \<and> Friend.friend_id f = owner \<and> Friend.status f = ''accepted''))"
  then show "case create_story s (Story_new owner url typ T T') of
              Inl e \<Rightarrow> False
            | Inr (st, s') \<Rightarrow>
                Story.created_at st = T \<and> Story.expires_at st = T' + hours 24
                \<and> st \<in> set (get_stories_for_user s' (T + hours 1) uid)
                \<and> st \<in> set (get_stories_for_user s' (T + hours 23 + minutes 59) uid)
                \<and> st \<notin> set (get_stories_for_user s' (T + hours 24 + seconds 1) uid)"
    unfolding create_story_new
    by (auto simp: get_stories_for_user_filter hours_def minutes_def seconds_def)
qed

theorem get_stories_for_user_visible_witness:
  "(case create_story one_way (Story_new 2 ''s.png'' ''image'' 1000 1005) of
      Inl e \<Rightarrow> False
    | Inr (st, s') \<Rightarrow>
        Story.created_at st = 1000 \<and> Story.expires_at st = 1005 + hours 24
        \<and> st \<in> set (get_stories_for_user s' (1000 + hours 1) 1)
        \<and> st \<in> set (get_stories_for_user s' (1000 + hours 23 + minutes 59) 1)
        \<and> st \<notin> set (get_stories_for_user s' (1000 + hours 24 + seconds 1) 1))"
proof -
  have t: "(1000::int) \<le> 1005 \<and> (1005::int) \<le> 1000 + seconds 1"
    by (simp add: seconds_def)
  have f: "\<exists>f \<in> set (friends one_way). Friend.user_id f = 1 \<and> Friend.friend_id f = 2
            \<and> Friend.status f = ''accepted''"
    by (simp add: friends_one_way)
  from get_stories_for_user_visible [of one_way _ 1 _ 1000 1005 2 "''s.png''" "''image''"] t f
  show ?thesis by blast
qed

section \<open>Removing a friend\<close>

text \<open>
  C5. \<open>remove_friend s a b\<close> returns \<open>True\<close> exactly when the table has an accepted row
  between \<open>a\<close> and \<open>b\<close>, in either direction. When it returns \<open>False\<close> the store is
  unchanged. In a table with unique keys, a successful call takes one such accepted row
  out of the table and changes nothing else, and every pending row of the table is
  still there after the call.
\<close>

theorem remove_friend_either_direction:
  "(fst (remove_friend s a b) \<longleftrightarrow>
      (\<exists>r \<in> set (friends s).
          ((Friend.user_id r = a \<and> Friend.friend_id r = b)
           \<or> (Friend.user_id r = b \<and> Friend.friend_id r = a))
          \<and> Friend.status r = ''accepted''))
   \<and> (\<not> fst (remove_friend s a b) \<longrightarrow> snd (remove_friend s a b) = s)
   \<and> (distinct (map Friend.id (friends s)) \<longrightarrow>
        (fst (remove_friend s a b) \<longrightarrow>
          (\<exists>r \<in> set (friends s).
              ((Friend.user_id r = a \<and> Friend.friend_id r = b)
               \<or> (Friend.user_id r = b \<and> Friend.friend_id r = a))
              \<and> Friend.status r = ''accepted''
              \<and> snd (remove_friend s a b) = s\<lparr>friends := remove1 r (friends s)\<rparr>))
        \<and> (\<forall>r \<in> set (friends s). Friend.status r = ''pending'' \<longrightarrow>
              r \<in> set (friends (snd (remove_friend s a b)))))"
proof -
  let ?P = "\<lambda>r. ((Friend.user_id r = a \<and> Friend.friend_id r = b)
                 \<or> (Friend.user_id r = b \<and> Friend.friend_id r = a))
                \<and> Friend.status r = ''accepted''"
  have iff: "fst (remove_friend s a b) \<longleftrightarrow> (\<exists>r \<in> set (friends s). ?P r)"
    using remove_friend_cases [of a b s]
    by (elim disjE conjE exE) (auto simp: first_None dest: first_Some_holds)
  have unchanged: "\<not> fst (remove_friend s a b) \<Longrightarrow> snd (remove_friend s a b) = s"
    using remove_friend_cases [of a b s] by auto
  have keyed: "(fst (remove_friend s a b) \<longrightarrow>
          (\<exists>r \<in> set (friends s). ?P r
              \<and> snd (remove_friend s a b) = s\<lparr>friends := remove1 r (friends s)\<rparr>))
        \<and> (\<forall>r \<in> set (friends s). Friend.status r = ''pending'' \<longrightarrow>
              r \<in> set (friends (snd (remove_friend s a b))))"
    if d: "distinct (map Friend.id (friends s))"
  proof -
    from remove_friend_row [OF d, of a b]
    consider (none) "\<not> fst (remove_friend s a b)" "snd (remove_friend s a b) = s"
      | (some) r where "r \<in> set (friends s)" "?P r"
          "remove_friend s a b = (True, s\<lparr>friends := remove1 r (friends s)\<rparr>)"
      by blast
    then show ?thesis
    proof cases
      case none
      then show ?thesis by simp
    next
      case (some r)
      have "x \<in> set (remove1 r (friends s))"
        if "x \<in> set (friends s)" "Friend.status x = ''pending''" for x
      proof -
        from that some have "x \<noteq> r" by auto
        with that show ?thesis by simp
      qed
      with some show ?thesis by auto
    qed
  qed
  from iff unchanged keyed show ?thesis by blast
qed

theorem remove_friend_either_direction_witness:
  "distinct (map Friend.id (friends mixed))
   \<and> fst (remove_friend mixed 2 1)
   \<and> \<lparr>Friend.id = Some 2, Friend.user_id = 2, Friend.friend_id = 1,
       Friend.status = ''pending''\<rparr> \<in> set (friends (snd (remove_friend mixed 2 1)))
   \<and> \<not> fst (remove_friend requested 1 2)
   \<and> snd (remove_friend requested 1 2) = requested"
proof -
  have d: "distinct (map Friend.id (friends mixed))"
    by (simp add: friends_mixed)
  have p: "\<exists>r \<in> set (friends mixed).
          ((Friend.user_id r = 2 \<and> Friend.friend_id r = 1)
           \<or> (Friend.user_id r = 1 \<and> Friend.friend_id r = 2))
          \<and> Friend.status r = ''accepted''"
    by (simp add: friends_mixed)
  have q: "\<lparr>Friend.id = Some 2, Friend.user_id = 2, Friend.friend_id = 1,
       Friend.status = ''pending''\<rparr> \<in> set (friends mixed)"
    by (simp add: friends_mixed)
  have n: "\<not> (\<exists>r \<in> set (friends requested).
          ((Friend.user_id r = 1 \<and> Friend.friend_id r = 2)
           \<or> (Friend.user_id r = 2 \<and> Friend.friend_id r = 1))
          \<and> Friend.status r = ''accepted'')"
    by (simp add: friends_requested)
  from remove_friend_either_direction [of mixed 2 1] p d q
  have "fst (remove_friend mixed 2 1)"
    and "\<lparr>Friend.id = Some 2, Friend.user_id = 2, Friend.friend_id = 1,
       Friend.status = ''pending''\<rparr> \<in> set (friends (snd (remove_friend mixed 2 1)))"
    by force+
  moreover from remove_friend_either_direction [of requested 1 2] n
  have "\<not> fst (remove_friend requested 1 2)"
    and "snd (remove_friend requested 1 2) = requested"
    by blast+
  ultimately show ?thesis using d by blast
qed

section \<open>Both sides of an accepted row\<close>

text \<open>
  C6. In \<open>one_way\<close> the accepted row is between users 1 and 2, and \<open>get_friends\<close> returns
  neither user for the other: it raises \<^verbatim>\<open>InvalidRequestError\<close> for user 1 and for
  user 2.
\<close>

theorem get_friends_raises_on_both_sides:
  "friends one_way = [\<lparr>Friend.id = Some 1, Friend.user_id = 1, Friend.friend_id = 2,
                       Friend.status = ''accepted''\<rparr>]
   \<and> users one_way = [alice, bob] \<and> User.id alice = Some 1 \<and> User.id bob = Some 2
   \<and> get_friends one_way 1 = Inl InvalidRequestError
   \<and> get_friends one_way 2 = Inl InvalidRequestError"
  by (simp add: users_one_way friends_one_way get_friends_def join_Friend_def
      Friend_foreign_keys_def alice_def bob_def)

section \<open>Posts and comments\<close>

lemma sorted_newest_first:
  "sorted_wrt (\<lambda>p q. Post.created_at q \<le> Post.created_at p)
     (sort_key (\<lambda>p. - Post.created_at p) ps)"
proof -
  have "sorted (map (\<lambda>p. - Post.created_at p) (sort_key (\<lambda>p. - Post.created_at p) ps))"
    by (rule sorted_sort_key)
  then show ?thesis by (simp add: sorted_map)
qed

text \<open>
  C7. \<open>get_timeline_posts s uid friend_ids\<close> returns exactly the posts whose \<open>user_id\<close> is
  \<open>uid\<close> or in \<open>friend_ids\<close>, each stored row once, with \<open>created_at\<close> descending. It
  reads the post table only: two stores with the same posts give the same timeline,
  whatever their friend tables hold.
\<close>

theorem get_timeline_posts_newest_first:
  "mset (get_timeline_posts s uid friend_ids) =
     mset (filter (\<lambda>p. Post.user_id p \<in> {uid} \<union> set friend_ids) (posts s))
   \<and> set (get_timeline_posts s uid friend_ids) =
       {p \<in> set (posts s). Post.user_id p \<in> {uid} \<union> set friend_ids}
   \<and> sorted_wrt (\<lambda>p q. Post.created_at q \<le> Post.created_at p)
       (get_timeline_posts s uid friend_ids)
   \<and> (posts s' = posts s \<longrightarrow>
        get_timeline_posts s' uid friend_ids = get_timeline_posts s uid friend_ids)"
  by (simp add: get_timeline_posts_def sorted_newest_first)

theorem get_timeline_posts_newest_first_witness:
  "posts (blog\<lparr>friends := friends mutual\<rparr>) = posts blog
   \<and> get_timeline_posts (blog\<lparr>friends := friends mutual\<rparr>) 1 [2] = get_timeline_posts blog 1 [2]
   \<and> map Post.id (get_timeline_posts blog 1 [2]) = [Some 2, Some 1]"
proof -
  have p: "posts (blog\<lparr>friends := friends mutual\<rparr>) = posts blog" by simp
  have l: "map Post.id (get_timeline_posts blog 1 [2]) = [Some 2, Some 1]"
    by (simp add: get_timeline_posts_def posts_blog post_by_def)
  from get_timeline_posts_newest_first [of blog 1 "[2]" "blog\<lparr>friends := friends mutual\<rparr>"] p l
  show ?thesis by blast
qed

lemma delete_post_filter:
  "snd (delete_post s pid) = s\<lparr>posts := filter (\<lambda>p. Post.id p \<noteq> Some pid) (posts s)\<rparr>"
proof (cases "first (\<lambda>p. Post.id p = Some pid) (posts s)")
  case None
  then have "filter (\<lambda>p. Post.id p \<noteq> Some pid) (posts s) = posts s"
    by (simp add: first_None filter_id_conv)
  with None show ?thesis by (simp add: delete_post_def)
next
  case (Some p)
  from first_Some_holds [OF Some] have "Post.id p = Some pid" by simp
  with Some show ?thesis by (simp add: delete_post_def)
qed

lemma get_comments_for_post_rows:
  "mset (get_comments_for_post s pid) = mset (filter (\<lambda>c. Comment.post_id c = pid) (comments s))
   \<and> sorted (map Comment.created_at (get_comments_for_post s pid))"
  by (simp add: get_comments_for_post_def)

text \<open>
  C8. \<open>delete_post s pid\<close> returns \<open>True\<close> exactly when a post with key \<open>pid\<close> is stored.
  It takes the posts with that key out (with unique keys: that one post) and changes no
  other table: the comments are the same. After the call \<open>get_comments_for_post\<close>
  returns, for the deleted post as for any other, exactly the comments of the table
  that carry that \<open>post_id\<close>, each once and oldest first, which is what it returned
  before; so every comment that referenced the deleted post is still returned.
\<close>

theorem delete_post_keeps_comments:
  "(fst (delete_post s pid) \<longleftrightarrow> (\<exists>p \<in> set (posts s). Post.id p = Some pid))
   \<and> snd (delete_post s pid) = s\<lparr>posts := filter (\<lambda>p. Post.id p \<noteq> Some pid) (posts s)\<rparr>
   \<and> comments (snd (delete_post s pid)) = comments s
   \<and> get_comments_for_post (snd (delete_post s pid)) pid' = get_comments_for_post s pid'
   \<and> (distinct (map Post.id (posts s)) \<longrightarrow>
        (\<forall>p \<in> set (posts s). Post.id p = Some pid \<longrightarrow>
            posts (snd (delete_post s pid)) = remove1 p (posts s)))
   \<and> mset (get_comments_for_post (snd (delete_post s pid)) pid') =
       mset (filter (\<lambda>c. Comment.post_id c = pid') (comments s))
   \<and> sorted (map Comment.created_at (get_comments_for_post (snd (delete_post s pid)) pid'))
   \<and> (\<forall>c \<in> set (comments s). Comment.post_id c = pid \<longrightarrow>
        c \<in> set (get_comments_for_post (snd (delete_post s pid)) pid))"
proof -
  have iff: "fst (delete_post s pid) \<longleftrightarrow> (\<exists>p \<in> set (posts s). Post.id p = Some pid)"
  proof (cases "first (\<lambda>p. Post.id p = Some pid) (posts s)")
    case None
    then have "\<not> (\<exists>p \<in> set (posts s). Post.id p = Some pid)" by (simp add: first_None)
    with None show ?thesis by (simp add: delete_post_def)
  next
    case (Some p)
    from first_Some_holds [OF Some] Some show ?thesis by (auto simp: delete_post_def)
  qed
  have one: "posts (snd (delete_post s pid)) = remove1 p (posts s)"
    if "distinct (map Post.id (posts s))" "p \<in> set (posts s)" "Post.id p = Some pid" for p
    using keyed_delete [of Post.id "posts s" p] that by (simp add: delete_post_filter)
  have same: "get_comments_for_post (snd (delete_post s pid)) q = get_comments_for_post s q"
    for q
    by (simp add: delete_post_filter get_comments_for_post_def)
  have rows: "mset (get_comments_for_post (snd (delete_post s pid)) pid') =
       mset (filter (\<lambda>c. Comment.post_id c = pid') (comments s))"
    and oldest: "sorted (map Comment.created_at
       (get_comments_for_post (snd (delete_post s pid)) pid'))"
    using get_comments_for_post_rows [of s pid'] by (simp_all add: same)
  have still: "c \<in> set (get_comments_for_post (snd (delete_post s pid)) pid)"
    if "c \<in> set (comments s)" "Comment.post_id c = pid" for c
    using that by (simp add: delete_post_filter get_comments_for_post_def)
  have frame: "snd (delete_post s pid) =
      s\<lparr>posts := filter (\<lambda>p. Post.id p \<noteq> Some pid) (posts s)\<rparr>"
    and cs: "comments (snd (delete_post s pid)) = comments s"
    by (simp_all add: delete_post_filter)
  from iff frame cs same one rows oldest still show ?thesis by blast
qed

theorem delete_post_keeps_comments_witness:
  "distinct (map Post.id (posts thread))
   \<and> fst (delete_post thread 1)
   \<and> posts (snd (delete_post thread 1)) = [(post_by 2 10)\<lparr>Post.id := Some 2\<rparr>]
   \<and> comments (snd (delete_post thread 1)) = comments thread
   \<and> (comment_on 1 2 None 11)\<lparr>Comment.id := Some 1\<rparr>
       \<in> set (get_comments_for_post (snd (delete_post thread 1)) 1)
   \<and> (comment_on 1 1 (Some 1) 13)\<lparr>Comment.id := Some 3\<rparr>
       \<in> set (get_comments_for_post (snd (delete_post thread 1)) 1)
   \<and> map Comment.id (get_comments_for_post (snd (delete_post thread 1)) 1) = [Some 1, Some 3]"
proof -
  have d: "distinct (map Post.id (posts thread))"
    by (simp add: posts_thread)
  have p: "(post_by 1 10)\<lparr>Post.id := Some 1\<rparr> \<in> set (posts thread)"
    "Post.id ((post_by 1 10)\<lparr>Post.id := Some 1\<rparr>) = Some 1"
    by (simp_all add: posts_thread)
  have c: "(comment_on 1 2 None 11)\<lparr>Comment.id := Some 1\<rparr> \<in> set (comments thread)"
    "Comment.post_id ((comment_on 1 2 None 11)\<lparr>Comment.id := Some 1\<rparr>) = 1"
    "(comment_on 1 1 (Some 1) 13)\<lparr>Comment.id := Some 3\<rparr> \<in> set (comments thread)"
    "Comment.post_id ((comment_on 1 1 (Some 1) 13)\<lparr>Comment.id := Some 3\<rparr>) = 1"
    by (simp_all add: comments_thread comment_on_def)
  have before: "map Comment.id (get_comments_for_post thread 1) = [Some 1, Some 3]"
    by (simp add: get_comments_for_post_def comments_thread comment_on_def)
  from delete_post_keeps_comments [of thread 1 1] d p c
  have "fst (delete_post thread 1)"
    and "posts (snd (delete_post thread 1)) =
           remove1 ((post_by 1 10)\<lparr>Post.id := Some 1\<rparr>) (posts thread)"
    and "comments (snd (delete_post thread 1)) = comments thread"
    and "get_comments_for_post (snd (delete_post thread 1)) 1 = get_comments_for_post thread 1"
    and "(comment_on 1 2 None 11)\<lparr>Comment.id := Some 1\<rparr>
           \<in> set (get_comments_for_post (snd (delete_post thread 1)) 1)"
    and "(comment_on 1 1 (Some 1) 13)\<lparr>Comment.id := Some 3\<rparr>
           \<in> set (get_comments_for_post (snd (delete_post thread 1)) 1)"
    by blast+
  with d before show ?thesis by (simp add: posts_thread post_by_def)
qed

section \<open>The status of a friend row\<close>

lemma committed_friends:
  "friends (committed s (create_user s u)) = friends s"
  "friends (committed s (update_user s uid upd)) = friends s"
  "friends (committed s (create_post s p)) = friends s"
  "friends (committed s (add_comment s c)) = friends s"
  "friends (committed s (add_reply s c)) = friends s"
  "friends (committed s (create_story s st)) = friends s"
  by (auto simp: committed_def create_user_def update_user_def create_post_def add_comment_def
      add_reply_def create_story_def Let_def split: sum.splits option.splits if_splits)

lemma delete_friends:
  "friends (snd (delete_user s uid)) = friends s"
  "friends (snd (delete_post s pid)) = friends s"
  "friends (snd (delete_comment s cid)) = friends s"
  by (auto simp: delete_user_def delete_post_def delete_comment_def split: option.splits)

lemma send_friend_request_rows:
  "f \<in> set (friends (snd (send_friend_request s a b))) \<Longrightarrow>
     f \<in> set (friends s) \<or> Friend.status f = ''pending''"
  by (auto simp: send_friend_request_def split: option.splits)

lemma accept_friend_request_rows:
  "f \<in> set (friends (snd (accept_friend_request s a b))) \<Longrightarrow>
     f \<in> set (friends s) \<or> Friend.status f = ''accepted''"
  by (auto simp: accept_friend_request_def split: option.splits if_splits)

lemma reject_friend_request_rows:
  "f \<in> set (friends (snd (reject_friend_request s a b))) \<Longrightarrow> f \<in> set (friends s)"
  by (auto simp: reject_friend_request_def split: option.splits)

lemma remove_friend_rows:
  "f \<in> set (friends (snd (remove_friend s a b))) \<Longrightarrow> f \<in> set (friends s)"
  by (auto simp: remove_friend_def split: option.splits)

lemma step_rows:
  "f \<in> set (friends (step s c)) \<Longrightarrow>
     f \<in> set (friends s) \<or> Friend.status f = ''pending'' \<or> Friend.status f = ''accepted''"
proof (cases c)
  case (Accept_friend_request a b)
  then show "f \<in> set (friends (step s c)) \<Longrightarrow> ?thesis"
    using accept_friend_request_rows [of f s a b] by auto
next
  case (Reject_friend_request a b)
  then show "f \<in> set (friends (step s c)) \<Longrightarrow> ?thesis"
    using reject_friend_request_rows [of f s a b] by auto
next
  case (Send_friend_request a b)
  then show "f \<in> set (friends (step s c)) \<Longrightarrow> ?thesis"
    using send_friend_request_rows [of f s a b] by auto
next
  case (Remove_friend a b)
  then show "f \<in> set (friends (step s c)) \<Longrightarrow> ?thesis"
    using remove_friend_rows [of f s a b] by auto
qed (simp_all add: committed_friends delete_friends)

lemma run_status:
  "\<forall>f \<in> set (friends s). Friend.status f = ''pending'' \<or> Friend.status f = ''accepted'' \<Longrightarrow>
   \<forall>f \<in> set (friends (run s cs)). Friend.status f = ''pending'' \<or> Friend.status f = ''accepted''"
proof (induction cs arbitrary: s)
  case Nil
  then show ?case by simp
next
  case (Cons c cs)
  from Cons.prems
  have "\<forall>f \<in> set (friends (step s c)). Friend.status f = ''pending'' \<or> Friend.status f = ''accepted''"
    using step_rows [of _ s c] by blast
  then show ?case by (simp add: Cons.IH)
qed

text \<open>
  C9. In every store that a sequence of service calls builds from the empty store, every
  friend row has status pending or accepted, never blocked. From any store, a row in the
  table after \<open>send_friend_request\<close> was there before or is pending, a row after
  \<open>accept_friend_request\<close> was there before or is accepted, and a row after any service
  call was there before or is pending or accepted.
\<close>

theorem friend_status_never_blocked:
  "(\<forall>f \<in> set (friends (run empty_session cs)).
      (Friend.status f = ''pending'' \<or> Friend.status f = ''accepted'')
      \<and> Friend.status f \<noteq> ''blocked'')
   \<and> (\<forall>f \<in> set (friends (snd (send_friend_request s a b))).
        f \<in> set (friends s) \<or> Friend.status f = ''pending'')
   \<and> (\<forall>f \<in> set (friends (snd (accept_friend_request s a b))).
        f \<in> set (friends s) \<or> Friend.status f = ''accepted'')
   \<and> (\<forall>f \<in> set (friends (step s c)).
        f \<in> set (friends s) \<or> Friend.status f = ''pending'' \<or> Friend.status f = ''accepted'')"
proof -
  have "\<forall>f \<in> set (friends (run empty_session cs)).
      Friend.status f = ''pending'' \<or> Friend.status f = ''accepted''"
    by (rule run_status) (simp add: empty_session_def)
  then have "\<forall>f \<in> set (friends (run empty_session cs)).
      (Friend.status f = ''pending'' \<or> Friend.status f = ''accepted'')
      \<and> Friend.status f \<noteq> ''blocked''"
    by auto
  then show ?thesis
    using send_friend_request_rows [of _ s a b] accept_friend_request_rows [of _ s a b]
      step_rows [of _ s c]
    by blast
qed

theorem friend_status_never_blocked_witness:
  "\<lparr>Friend.id = Some 1, Friend.user_id = 1, Friend.friend_id = 2, Friend.status = ''accepted''\<rparr>
     \<in> set (friends (run empty_session signed_up))
   \<and> \<lparr>Friend.id = Some 2, Friend.user_id = 2, Friend.friend_id = 1, Friend.status = ''pending''\<rparr>
     \<in> set (friends (run empty_session signed_up))
   \<and> list_all (\<lambda>f. Friend.status f \<noteq> ''blocked'') (friends (run empty_session signed_up))"
proof -
  have "\<lparr>Friend.id = Some 1, Friend.user_id = 1, Friend.friend_id = 2, Friend.status = ''accepted''\<rparr>
     \<in> set (friends (run empty_session signed_up))"
   and "\<lparr>Friend.id = Some 2, Friend.user_id = 2, Friend.friend_id = 1, Friend.status = ''pending''\<rparr>
     \<in> set (friends (run empty_session signed_up))"
    by (simp_all add: friends_signed_up)
  with friend_status_never_blocked [of signed_up] show ?thesis
    by (simp add: list_all_iff)
qed

section \<open>One row per call of \<open>remove_friend\<close>\<close>

text \<open>
  In a table with unique keys, \<open>remove_friend s a b\<close> leaves the table as it is or takes
  exactly one row out. When \<open>a \<noteq> b\<close> and accepted rows run both from \<open>a\<close> to \<open>b\<close> and from
  \<open>b\<close> to \<open>a\<close>, the call succeeds and an accepted row between the two is still in the
  table afterwards.
\<close>

lemma remove_friend_takes_one_row:
  "distinct (map Friend.id (friends s)) \<longrightarrow>
     (friends (snd (remove_friend s a b)) = friends s
      \<or> (\<exists>r \<in> set (friends s). friends (snd (remove_friend s a b)) = remove1 r (friends s)))
     \<and> length (friends s) \<le> length (friends (snd (remove_friend s a b))) + 1
     \<and> (a \<noteq> b
        \<and> (\<exists>r \<in> set (friends s). Friend.user_id r = a \<and> Friend.friend_id r = b
              \<and> Friend.status r = ''accepted'')
        \<and> (\<exists>r \<in> set (friends s). Friend.user_id r = b \<and> Friend.friend_id r = a
              \<and> Friend.status r = ''accepted'')
        \<longrightarrow> fst (remove_friend s a b)
            \<and> (\<exists>r \<in> set (friends (snd (remove_friend s a b))).
                  ((Friend.user_id r = a \<and> Friend.friend_id r = b)
                   \<or> (Friend.user_id r = b \<and> Friend.friend_id r = a))
                  \<and> Friend.status r = ''accepted''))"
proof
  let ?P = "\<lambda>r. ((Friend.user_id r = a \<and> Friend.friend_id r = b)
                 \<or> (Friend.user_id r = b \<and> Friend.friend_id r = a))
                \<and> Friend.status r = ''accepted''"
  let ?s' = "snd (remove_friend s a b)"
  assume d: "distinct (map Friend.id (friends s))"
  from remove_friend_row [OF d, of a b]
  consider (none) "\<not> fst (remove_friend s a b)" "?s' = s" "\<not> (\<exists>r \<in> set (friends s). ?P r)"
    | (some) r where "r \<in> set (friends s)" "?P r"
        "remove_friend s a b = (True, s\<lparr>friends := remove1 r (friends s)\<rparr>)"
    by blast
  then show "(friends ?s' = friends s
      \<or> (\<exists>r \<in> set (friends s). friends ?s' = remove1 r (friends s)))
     \<and> length (friends s) \<le> length (friends ?s') + 1
     \<and> (a \<noteq> b
        \<and> (\<exists>r \<in> set (friends s). Friend.user_id r = a \<and> Friend.friend_id r = b
              \<and> Friend.status r = ''accepted'')
        \<and> (\<exists>r \<in> set (friends s). Friend.user_id r = b \<and> Friend.friend_id r = a
              \<and> Friend.status r = ''accepted'')
        \<longrightarrow> fst (remove_friend s a b) \<and> (\<exists>r \<in> set (friends ?s'). ?P r))"
  proof cases
    case none
    then show ?thesis by auto
  next
    case (some r)
    then have s': "friends ?s' = remove1 r (friends s)"
      and ok: "fst (remove_friend s a b)"
      by simp_all
    have len: "length (friends s) \<le> length (friends ?s') + 1"
      using some(1) by (simp add: s' length_remove1)
    have rest: "\<exists>r \<in> set (friends ?s'). ?P r"
      if ab: "a \<noteq> b"
        and r1: "r1 \<in> set (friends s)" "Friend.user_id r1 = a" "Friend.friend_id r1 = b"
          "Friend.status r1 = ''accepted''"
        and r2: "r2 \<in> set (friends s)" "Friend.user_id r2 = b" "Friend.friend_id r2 = a"
          "Friend.status r2 = ''accepted''"
      for r1 r2
    proof -
      from ab r1 r2 have "r1 \<noteq> r \<or> r2 \<noteq> r" by auto
      then show ?thesis
      proof
        assume "r1 \<noteq> r"
        with r1 have "r1 \<in> set (friends ?s')" by (simp add: s')
        with r1 show ?thesis by auto
      next
        assume "r2 \<noteq> r"
        with r2 have "r2 \<in> set (friends ?s')" by (simp add: s')
        with r2 show ?thesis by auto
      qed
    qed
    from some(1) s' len ok rest show ?thesis by blast
  qed
qed

text \<open>
  C10. In \<open>mutual\<close> users 1 and 2 each sent the other a request and each accepted, so
  accepted rows run both ways. \<open>remove_friend mutual 1 2\<close> takes out one row, the one
  from 1 to 2, and the accepted row from 2 to 1 is still in the table. The pair then
  appears in neither user's \<open>get_friends\<close> result: the call raises
  \<^verbatim>\<open>InvalidRequestError\<close> for user 1 and for user 2.
\<close>

theorem remove_friend_then_get_friends_raises:
  "friends mutual = [\<lparr>Friend.id = Some 1, Friend.user_id = 1, Friend.friend_id = 2,
                       Friend.status = ''accepted''\<rparr>,
                     \<lparr>Friend.id = Some 2, Friend.user_id = 2, Friend.friend_id = 1,
                       Friend.status = ''accepted''\<rparr>]
   \<and> fst (remove_friend mutual 1 2)
   \<and> friends (snd (remove_friend mutual 1 2)) =
       [\<lparr>Friend.id = Some 2, Friend.user_id = 2, Friend.friend_id = 1,
         Friend.status = ''accepted''\<rparr>]
   \<and> get_friends (snd (remove_friend mutual 1 2)) 1 = Inl InvalidRequestError
   \<and> get_friends (snd (remove_friend mutual 1 2)) 2 = Inl InvalidRequestError"
  by (simp add: friends_mutual remove_friend_def first_def get_friends_def join_Friend_def
      Friend_foreign_keys_def)

end
